theory Spec2Isabelle
  imports Complex_Main
begin

section \<open>JavaScript values used by the session reconciliation engine\<close>

text \<open>
  Strings are lists of code units (restricted to the 8-bit range of \<^typ>\<open>char\<close>), so
  \<open>length\<close> is JavaScript's \<open>.length\<close> and \<open>take n\<close> is \<open>.slice(0, n)\<close>.
  Token and message counts are JavaScript numbers holding integers: \<^typ>\<open>int\<close>.
  Prices and costs are JavaScript doubles, taken here as exact rationals.
  An optional field (\<open>field?: T\<close>) is a \<open>T option\<close>.
\<close>

definition truthy :: "string option \<Rightarrow> bool" where
  "truthy s = (case s of None \<Rightarrow> False | Some v \<Rightarrow> v \<noteq> [])"

definition truthy_num :: "int option \<Rightarrow> bool" where
  "truthy_num n = (case n of None \<Rightarrow> False | Some v \<Rightarrow> v \<noteq> 0)"

text \<open>\<open>a || b\<close> on optional strings and on optional numbers.\<close>

definition or_str :: "string option \<Rightarrow> string option \<Rightarrow> string option" where
  "or_str a b = (if truthy a then a else b)"

definition or_num :: "int option \<Rightarrow> int option \<Rightarrow> int option" where
  "or_num a b = (if truthy_num a then a else b)"

text \<open>\<open>n || 0\<close> on an optional number.\<close>

definition or_zero :: "int option \<Rightarrow> int" where
  "or_zero n = (case n of None \<Rightarrow> 0 | Some v \<Rightarrow> v)"

text \<open>\<open>s || d\<close> where \<open>d\<close> is a string that is always there.\<close>

definition or_default :: "string option \<Rightarrow> string \<Rightarrow> string" where
  "or_default s d = (case s of None \<Rightarrow> d | Some v \<Rightarrow> (if v = [] then d else v))"

text \<open>
  White space as \<open>String.prototype.trim\<close> sees it, among 8-bit code units: tab, line
  feed, vertical tab, form feed, carriage return, space and no-break space.
\<close>

definition is_white_space :: "char \<Rightarrow> bool" where
  "is_white_space c = ((of_char c :: nat) \<in> {9, 10, 11, 12, 13, 32, 160})"

definition trim :: "string \<Rightarrow> string" where
  "trim s = rev (dropWhile is_white_space (rev (dropWhile is_white_space s)))"

text \<open>\<open>s.lastIndexOf(c)\<close> for a one-character search string: \<open>-1\<close> when absent.\<close>

definition lastIndexOf :: "string \<Rightarrow> char \<Rightarrow> int" where
  "lastIndexOf s c =
     (if c \<in> set s then int (length s) - 1 - int (length (takeWhile (\<lambda>x. x \<noteq> c) (rev s)))
      else - 1)"

text \<open>\<open>s.includes(k)\<close>: \<open>k\<close> occurs in \<open>s\<close> as a contiguous run.\<close>

fun str_includes :: "string \<Rightarrow> string \<Rightarrow> bool" where
  "str_includes [] k = (k = [])"
| "str_includes (c # s) k = (take (length k) (c # s) = k \<or> str_includes s k)"

text \<open>Decimal rendering of a non-negative integer, as a template literal prints it.\<close>

function digits :: "nat \<Rightarrow> string" where
  "digits n =
     (if n < 10 then [char_of (48 + n)]
      else digits (n div 10) @ [char_of (48 + n mod 10)])"
  by pat_completeness auto
termination
  by (relation "measure (\<lambda>n. n)") auto

declare digits.simps [simp del]

definition show_nat :: "nat \<Rightarrow> string" where
  "show_nat n = digits n"

section \<open>Title derivation (\<open>generateTitle\<close>)\<close>

definition generateTitle :: "string \<Rightarrow> string" where
  "generateTitle prompt =
     (let trimmed = trim (take 80 prompt) in
      if length prompt > 80 then
        (let lastSpace = lastIndexOf trimmed CHR '' '' in
         if lastSpace > 40 then take (nat lastSpace) trimmed @ ''...''
         else trimmed @ ''...'')
      else trimmed)"

text \<open>
  The title as the specification words it, for comparison: the first 80 characters, cut
  at the last space of that window when the space is at or after character 40, and the
  raw window otherwise. Positions are read as zero-based indices, the reading under which
  the specification's own example (a space as character 45 gives the first 45 characters)
  agrees with \<open>generateTitle\<close>.
\<close>

definition claimed_title :: "string \<Rightarrow> string" where
  "claimed_title prompt =
     (if length prompt \<le> 80 then trim prompt
      else
        (let window = take 80 prompt; lastSpace = lastIndexOf window CHR '' '' in
         if lastSpace \<ge> 40 then take (nat lastSpace) window @ ''...''
         else window @ ''...''))"

section \<open>Cost calculation (\<open>MODEL_PRICING\<close>, \<open>calculateCost\<close>)\<close>













section \<open>Records sent to the collector (\<open>SessionData\<close>, \<open>MessageData\<close>)\<close>

text \<open>
  Field names that several interfaces of the source share carry a prefix here:
  \<open>s_\<close> for \<open>SessionData\<close>, \<open>m_\<close> for \<open>MessageData\<close>, \<open>tu_\<close> for a token
  usage, and one per hook payload. A JSON object the code only passes on
  (\<open>tool_input\<close>) is kept as its text; \<open>MessageData.parts\<close>, which the command never
  sets, is left out.
\<close>

record TokenUsage =
  tu_input :: int
  tu_output :: int

record SessionData =
  s_sessionId :: string
  s_source :: string
  s_title :: "string option"
  s_projectPath :: "string option"
  s_projectName :: "string option"
  s_cwd :: "string option"
  s_gitBranch :: "string option"
  s_gitRepo :: "string option"
  s_model :: "string option"
  s_startType :: "string option"
  s_endReason :: "string option"
  s_thinkingEnabled :: "bool option"
  s_permissionMode :: "string option"
  s_mcpServers :: "string list option"
  s_messageCount :: "int option"
  s_toolCallCount :: "int option"
  s_tokenUsage :: "TokenUsage option"
  s_costEstimate :: "rat option"
  s_startedAt :: "string option"
  s_endedAt :: "string option"

record MessageData =
  m_sessionId :: string
  m_messageId :: string
  m_source :: string
  m_role :: string
  m_content :: "string option"
  m_thinkingContent :: "string option"
  m_toolName :: "string option"
  m_toolArgs :: "string option"
  m_toolResult :: "string option"
  m_durationMs :: "int option"
  m_tokenCount :: "int option"
  m_timestamp :: "string option"
  m_model :: "string option"

text \<open>An object literal that sets only \<open>sessionId\<close> and \<open>source\<close>; the cases update it.\<close>

definition session_data :: "string \<Rightarrow> SessionData" where
  "session_data sid =
     \<lparr>s_sessionId = sid, s_source = ''claude-code'', s_title = None, s_projectPath = None,
      s_projectName = None, s_cwd = None, s_gitBranch = None, s_gitRepo = None, s_model = None,
      s_startType = None, s_endReason = None, s_thinkingEnabled = None,
      s_permissionMode = None, s_mcpServers = None, s_messageCount = None,
      s_toolCallCount = None, s_tokenUsage = None, s_costEstimate = None, s_startedAt = None,
      s_endedAt = None\<rparr>"

definition message_data :: "string \<Rightarrow> string \<Rightarrow> string \<Rightarrow> MessageData" where
  "message_data sid mid role =
     \<lparr>m_sessionId = sid, m_messageId = mid, m_source = ''claude-code'', m_role = role,
      m_content = None, m_thinkingContent = None, m_toolName = None, m_toolArgs = None,
      m_toolResult = None, m_durationMs = None, m_tokenCount = None, m_timestamp = None,
      m_model = None\<rparr>"

datatype sync_record = SessionRec SessionData | MessageRec MessageData

section \<open>Hook payloads read from standard input\<close>

record HookSessionStartData =
  start_session_id :: string
  start_cwd :: "string option"
  start_model :: "string option"
  start_permission_mode :: "string option"
  start_source :: "string option"
  start_thinking_enabled :: "bool option"
  start_mcp_servers :: "string list option"

record HookSessionEndData =
  end_session_id :: string
  end_reason :: "string option"
  message_count :: "int option"
  tool_call_count :: "int option"
  total_token_usage :: "TokenUsage option"
  cost_estimate :: "rat option"

record HookUserPromptData =
  prompt_session_id :: string
  prompt :: string
  prompt_timestamp :: "string option"

record ToolResult =
  tr_output :: "string option"
  tr_error :: "string option"

record HookToolUseData =
  tool_session_id :: string
  tool_name :: string
  tool_use_id :: "string option"
  tool_input :: "string option"
  tool_result :: "ToolResult option"
  duration_ms :: "int option"
  success :: "bool option"

record HookStopData =
  stop_session_id :: string
  transcript_path :: "string option"
  stop_hook_active :: "bool option"
  stop_permission_mode :: "string option"
  stop_cwd :: "string option"
  hook_event_name :: "string option"

text \<open>
  The command's \<open>event\<close> argument together with the payload its case parses; any
  other event name is \<open>UnknownEvent\<close>. A payload is the parsed JSON object, of the
  shape its interface declares; standard input that \<open>JSON.parse\<close> rejects is outside
  the model.
\<close>

datatype hook_event =
    SessionStart HookSessionStartData
  | SessionEnd HookSessionEndData
  | UserPromptSubmit HookUserPromptData
  | PostToolUse HookToolUseData
  | Stop HookStopData
  | UnknownEvent string

section \<open>Transcript entries and the transcript parser (\<open>parseTranscriptFile\<close>)\<close>

record TranscriptUsage =
  input_tokens :: "int option"
  output_tokens :: "int option"
  cache_read_input_tokens :: "int option"
  cache_creation_input_tokens :: "int option"

record TranscriptContentPart =
  part_type :: string
  part_text :: "string option"
  part_thinking :: "string option"

record TranscriptMessage =
  tm_content :: "TranscriptContentPart list option"
  tm_usage :: "TranscriptUsage option"
  tm_model :: "string option"
  tm_stop_reason :: "string option"

record TranscriptEntry =
  entry_type :: "string option"
  entry_uuid :: "string option"
  entry_timestamp :: "string option"
  entry_message :: "TranscriptMessage option"

text \<open>
  One line of the file: blank, not parsable as JSON, or an entry. A path names nothing,
  something that cannot be read as a file (\<open>readFileSync\<close> throws), or lines.
\<close>

datatype transcript_line = BlankLine | MalformedLine | EntryLine TranscriptEntry

datatype fs_node = Unreadable | Lines "transcript_line list"

record AssistantMessage =
  am_uuid :: string
  am_text :: string
  am_timestamp :: string
  am_model :: "string option"

record ParsedTranscript =
  assistantMessages :: "AssistantMessage list"
  pt_tokenUsage :: TokenUsage

text \<open>
  What one invocation finds around it. \<open>files\<close> are the transcript files; request
  number \<open>i\<close> of the invocation (counted from 0) is accepted by the collector when
  \<open>net_ok i\<close> holds and throws otherwise; \<open>now_ms\<close> is \<open>Date.now()\<close> and \<open>now_iso\<close> is
  \<open>new Date().toISOString()\<close>, the clock being read once per invocation; \<open>writable\<close>
  says whether writing the state file succeeds.
\<close>

record World =
  files :: "string \<Rightarrow> fs_node option"
  net_ok :: "nat \<Rightarrow> bool"
  now_ms :: nat
  now_iso :: string
  writable :: bool

text \<open>The inner loop over \<open>msg.content\<close>: one message per non-empty text part.\<close>

fun text_parts :: "string \<Rightarrow> string \<Rightarrow> string option \<Rightarrow> TranscriptContentPart list
    \<Rightarrow> AssistantMessage list" where
  "text_parts uuid ts model [] = []"
| "text_parts uuid ts model (part # parts) =
     (if part_type part = ''text'' \<and> truthy (part_text part)
      then \<lparr>am_uuid = uuid, am_text = the (part_text part), am_timestamp = ts,
             am_model = model\<rparr> # text_parts uuid ts model parts
      else text_parts uuid ts model parts)"

definition add_usage :: "TokenUsage \<Rightarrow> TranscriptUsage \<Rightarrow> TokenUsage" where
  "add_usage tu u =
     \<lparr>tu_input = tu_input tu + (or_zero (input_tokens u) + or_zero (cache_read_input_tokens u)
                 + or_zero (cache_creation_input_tokens u)),
      tu_output = tu_output tu + or_zero (output_tokens u)\<rparr>"

text \<open>The loop over the lines, with \<open>seenUuids\<close> and \<open>result\<close> as its state.\<close>

fun parse_lines :: "string \<Rightarrow> transcript_line list \<Rightarrow> string list \<Rightarrow> ParsedTranscript
    \<Rightarrow> ParsedTranscript" where
  "parse_lines now [] seenUuids result = result"
| "parse_lines now (BlankLine # ls) seenUuids result = parse_lines now ls seenUuids result"
| "parse_lines now (MalformedLine # ls) seenUuids result = parse_lines now ls seenUuids result"
| "parse_lines now (EntryLine entry # ls) seenUuids result =
     (case entry_message entry of
        None \<Rightarrow> parse_lines now ls seenUuids result
      | Some msg \<Rightarrow>
          if entry_type entry \<noteq> Some ''assistant'' then parse_lines now ls seenUuids result
          else
            (let uuid = or_default (entry_uuid entry) [] in
             if uuid \<noteq> [] \<and> uuid \<in> set seenUuids then parse_lines now ls seenUuids result
             else
               (let seenUuids' = (if uuid \<noteq> [] then seenUuids @ [uuid] else seenUuids);
                    messages = (case tm_content msg of
                        None \<Rightarrow> []
                      | Some parts \<Rightarrow>
                          text_parts uuid (or_default (entry_timestamp entry) now)
                            (tm_model msg) parts);
                    usage = (case tm_usage msg of
                        None \<Rightarrow> pt_tokenUsage result
                      | Some u \<Rightarrow> add_usage (pt_tokenUsage result) u)
                in parse_lines now ls seenUuids'
                     \<lparr>assistantMessages = assistantMessages result @ messages,
                      pt_tokenUsage = usage\<rparr>)))"

definition empty_transcript :: ParsedTranscript where
  "empty_transcript = \<lparr>assistantMessages = [], pt_tokenUsage = \<lparr>tu_input = 0, tu_output = 0\<rparr>\<rparr>"

definition parseTranscriptFile :: "World \<Rightarrow> string \<Rightarrow> ParsedTranscript" where
  "parseTranscriptFile w transcriptPath =
     (case files w transcriptPath of
        None \<Rightarrow> empty_transcript
      | Some Unreadable \<Rightarrow> empty_transcript
      | Some (Lines ls) \<Rightarrow> parse_lines (now_iso w) ls [] empty_transcript)"

section \<open>The session state store (\<open>loadSessionState\<close>, \<open>saveSessionState\<close>)\<close>

text \<open>
  One value of \<open>SessionState\<close>. The set \<open>syncedMessageUuids\<close> is the list of its
  elements in insertion order, the order \<open>Array.from\<close> writes them in.
\<close>

record Accumulator =
  model :: "string option"
  firstPrompt :: "string option"
  tokenUsage :: "TokenUsage option"
  messageCount :: "int option"
  syncedMessageUuids :: "string list option"

type_synonym SessionState = "string \<Rightarrow> Accumulator option"

text \<open>The state file: absent, not parsable, or a JSON object keyed by session id.\<close>

datatype Disk = NoFile | Corrupt | File SessionState

text \<open>\<open>new Set(array)\<close>: the first occurrence of every element, in order.\<close>

definition new_Set :: "string list \<Rightarrow> string list" where
  "new_Set xs = rev (remdups (rev xs))"

definition set_add :: "string list \<Rightarrow> string \<Rightarrow> string list" where
  "set_add s x = (if x \<in> set s then s else s @ [x])"

definition loadSessionState :: "Disk \<Rightarrow> SessionState" where
  "loadSessionState disk =
     (case disk of
        File data \<Rightarrow>
          (\<lambda>sessionId. map_option
             (\<lambda>session. session\<lparr>syncedMessageUuids :=
                 map_option new_Set (syncedMessageUuids session)\<rparr>) (data sessionId))
      | _ \<Rightarrow> Map.empty)"

text \<open>A write that fails is ignored and leaves the file as it was.\<close>

definition saveSessionState :: "World \<Rightarrow> Disk \<Rightarrow> SessionState \<Rightarrow> Disk" where
  "saveSessionState w disk state = (if writable w then File state else disk)"

text \<open>\<open>sessionState[id] || {}\<close>\<close>

definition empty_state :: Accumulator where
  "empty_state = \<lparr>model = None, firstPrompt = None, tokenUsage = None, messageCount = None,
     syncedMessageUuids = None\<rparr>"

definition state_or_empty :: "SessionState \<Rightarrow> string \<Rightarrow> Accumulator" where
  "state_or_empty sessionState sid =
     (case sessionState sid of None \<Rightarrow> empty_state | Some s \<Rightarrow> s)"

text \<open>\<open>state.messageCount = (state.messageCount || 0) + 1\<close>\<close>

definition increment_messageCount :: "Accumulator \<Rightarrow> Accumulator" where
  "increment_messageCount state =
     state\<lparr>messageCount := Some (or_zero (messageCount state) + 1)\<rparr>"

section \<open>The hook command\<close>

text \<open>
  What an invocation leaves behind: the state file, the accumulator \<open>state\<close> it held in
  memory when it ended (for the cases that have one), the requests it issued to the
  collector in order, and the exception that reached the command's \<open>catch\<close>, if any.
  Request number \<open>i\<close> of the invocation throws when \<open>net_ok w i\<close> is false; the request
  that throws is the last one issued.
\<close>

datatype hook_error = SyncFailed sync_record

record Result =
  disk_after :: Disk
  state_after :: "Accumulator option"
  requests :: "sync_record list"
  thrown :: "hook_error option"

text \<open>\<open>await client.syncSession(..)\<close> or \<open>syncMessage(..)\<close> as the last step of a case.\<close>

definition sync_last :: "World \<Rightarrow> Disk \<Rightarrow> Accumulator option \<Rightarrow> sync_record list \<Rightarrow> sync_record
    \<Rightarrow> Result" where
  "sync_last w disk st sent r =
     \<lparr>disk_after = disk, state_after = st, requests = sent @ [r],
      thrown = (if net_ok w (length sent) then None else Some (SyncFailed r))\<rparr>"

text \<open>\<open>cwd.split("/").pop()\<close>\<close>

definition last_segment :: "string \<Rightarrow> string" where
  "last_segment p = rev (takeWhile (\<lambda>c. c \<noteq> CHR ''/'') (rev p))"

definition hook_SessionStart :: "World \<Rightarrow> Disk \<Rightarrow> SessionState \<Rightarrow> HookSessionStartData
    \<Rightarrow> Result" where
  "hook_SessionStart w disk sessionState d =
     (let sessionState' = sessionState(start_session_id d \<mapsto>
            \<lparr>model = start_model d, firstPrompt = None,
             tokenUsage = Some \<lparr>tu_input = 0, tu_output = 0\<rparr>, messageCount = Some 0,
             syncedMessageUuids = None\<rparr>);
          disk' = saveSessionState w disk sessionState';
          session = (session_data (start_session_id d))
            \<lparr>s_cwd := start_cwd d, s_model := start_model d,
             s_permissionMode := start_permission_mode d,
             s_thinkingEnabled := start_thinking_enabled d,
             s_mcpServers := start_mcp_servers d,
             s_startType := (if start_source d = Some ''startup'' then Some ''new''
                             else start_source d),
             s_startedAt := Some (now_iso w),
             s_projectPath := start_cwd d,
             s_projectName := (if truthy (start_cwd d)
                               then Some (last_segment (the (start_cwd d))) else None)\<rparr>
      in sync_last w disk' None [] (SessionRec session))"

definition hook_SessionEnd :: "World \<Rightarrow> Disk \<Rightarrow> SessionState \<Rightarrow> HookSessionEndData
    \<Rightarrow> Result" where
  "hook_SessionEnd w disk sessionState d =
     (let state = state_or_empty sessionState (end_session_id d);
          finalTokenUsage = (case total_token_usage d of
              Some u \<Rightarrow> Some u | None \<Rightarrow> tokenUsage state);
          session = (session_data (end_session_id d))
            \<lparr>s_title := (if truthy (firstPrompt state)
                         then Some (generateTitle (the (firstPrompt state))) else None),
             s_endReason := end_reason d,
             s_messageCount := or_num (message_count d) (messageCount state),
             s_toolCallCount := tool_call_count d,
             s_tokenUsage := finalTokenUsage,
             s_costEstimate := cost_estimate d,
             s_endedAt := Some (now_iso w)\<rparr>
      in if net_ok w 0
         then \<lparr>disk_after = saveSessionState w disk (sessionState(end_session_id d := None)),
               state_after = Some state, requests = [SessionRec session], thrown = None\<rparr>
         else \<lparr>disk_after = disk, state_after = Some state, requests = [SessionRec session],
               thrown = Some (SyncFailed (SessionRec session))\<rparr>)"

definition hook_UserPromptSubmit :: "World \<Rightarrow> Disk \<Rightarrow> SessionState \<Rightarrow> HookUserPromptData
    \<Rightarrow> Result" where
  "hook_UserPromptSubmit w disk sessionState d =
     (let sid = prompt_session_id d;
          state = state_or_empty sessionState sid;
          first = \<not> truthy (firstPrompt state);
          state1 = (if first then state\<lparr>firstPrompt := Some (prompt d)\<rparr> else state);
          sessionState1 = (if first then sessionState(sid \<mapsto> state1) else sessionState);
          disk1 = (if first then saveSessionState w disk sessionState1 else disk);
          session = (session_data sid)\<lparr>s_title := Some (generateTitle (prompt d))\<rparr>;
          sent = (if first then [SessionRec session] else [])
      in if first \<and> \<not> net_ok w 0
         then \<lparr>disk_after = disk1, state_after = Some state1, requests = sent,
               thrown = Some (SyncFailed (SessionRec session))\<rparr>
         else
           (let state2 = increment_messageCount state1;
                disk2 = saveSessionState w disk1 (sessionState1(sid \<mapsto> state2));
                message = (message_data sid (sid @ ''-user-'' @ show_nat (now_ms w)) ''user'')
                  \<lparr>m_content := Some (prompt d),
                   m_timestamp := Some (or_default (prompt_timestamp d) (now_iso w))\<rparr>
            in sync_last w disk2 (Some state2) sent (MessageRec message)))"

definition hook_PostToolUse :: "bool option \<Rightarrow> World \<Rightarrow> Disk \<Rightarrow> SessionState
    \<Rightarrow> HookToolUseData \<Rightarrow> Result" where
  "hook_PostToolUse syncToolCalls w disk sessionState d =
     (if syncToolCalls \<noteq> Some True
      then \<lparr>disk_after = disk, state_after = None, requests = [], thrown = None\<rparr>
      else
        (let sid = tool_session_id d;
             state = state_or_empty sessionState sid;
             message = (message_data sid
                 (or_default (tool_use_id d) (sid @ ''-tool-'' @ show_nat (now_ms w)))
                 ''assistant'')
               \<lparr>m_toolName := Some (tool_name d),
                m_toolArgs := tool_input d,
                m_toolResult := (case tool_result d of
                    None \<Rightarrow> None | Some tr \<Rightarrow> or_str (tr_output tr) (tr_error tr)),
                m_durationMs := duration_ms d,
                m_timestamp := Some (now_iso w)\<rparr>
         in sync_last w disk (Some state) [] (MessageRec message)))"

text \<open>
  The loop of the Stop case over \<open>transcript.assistantMessages\<close>. Its state is the
  accumulator, the set \<open>syncedMessages\<close> and the requests issued so far; a request that
  throws ends it.
\<close>

definition assistant_message :: "World \<Rightarrow> string \<Rightarrow> AssistantMessage \<Rightarrow> MessageData" where
  "assistant_message w sid msg =
     (message_data sid
        (if am_uuid msg \<noteq> [] then am_uuid msg
         else sid @ ''-assistant-'' @ show_nat (now_ms w))
        ''assistant'')
       \<lparr>m_content := Some (am_text msg), m_model := am_model msg,
        m_timestamp := Some (am_timestamp msg)\<rparr>"

fun stop_loop :: "World \<Rightarrow> string \<Rightarrow> AssistantMessage list \<Rightarrow> Accumulator \<Rightarrow> string list
    \<Rightarrow> sync_record list
    \<Rightarrow> Accumulator \<times> string list \<times> sync_record list \<times> hook_error option" where
  "stop_loop w sid [] state syncedMessages sent = (state, syncedMessages, sent, None)"
| "stop_loop w sid (msg # msgs) state syncedMessages sent =
     (if am_uuid msg \<noteq> [] \<and> am_uuid msg \<in> set syncedMessages
      then stop_loop w sid msgs state syncedMessages sent
      else
        (let syncedMessages' = (if am_uuid msg \<noteq> []
                                then set_add syncedMessages (am_uuid msg)
                                else syncedMessages);
             state' = increment_messageCount state;
             message = MessageRec (assistant_message w sid msg)
         in if net_ok w (length sent)
            then stop_loop w sid msgs state' syncedMessages' (sent @ [message])
            else (state', syncedMessages', sent @ [message], Some (SyncFailed message))))"

text \<open>The end of the Stop case: store the accumulator, save, send the Session update.\<close>

definition stop_finish :: "World \<Rightarrow> Disk \<Rightarrow> SessionState \<Rightarrow> string \<Rightarrow> Accumulator
    \<Rightarrow> sync_record list \<Rightarrow> Result" where
  "stop_finish w disk sessionState sid state sent =
     (let disk' = saveSessionState w disk (sessionState(sid \<mapsto> state));
          session = (session_data sid)
            \<lparr>s_tokenUsage := tokenUsage state, s_messageCount := messageCount state\<rparr>
      in sync_last w disk' (Some state) sent (SessionRec session))"

text \<open>
  When a message request throws, \<open>state.syncedMessageUuids\<close> has not been assigned; it
  still is the set the loop added to when the accumulator had one (the same object), and
  absent otherwise.
\<close>

definition hook_Stop :: "World \<Rightarrow> Disk \<Rightarrow> SessionState \<Rightarrow> HookStopData \<Rightarrow> Result" where
  "hook_Stop w disk sessionState d =
     (let sid = stop_session_id d;
          state = state_or_empty sessionState sid
      in if truthy (transcript_path d) then
           (let transcript = parseTranscriptFile w (the (transcript_path d));
                state1 = (if tu_input (pt_tokenUsage transcript) > 0
                             \<or> tu_output (pt_tokenUsage transcript) > 0
                          then state\<lparr>tokenUsage := Some (pt_tokenUsage transcript)\<rparr>
                          else state);
                syncedMessages = (case syncedMessageUuids state1 of
                    Some s \<Rightarrow> s | None \<Rightarrow> [])
            in case stop_loop w sid (assistantMessages transcript) state1 syncedMessages [] of
                 (state2, synced, sent, Some e) \<Rightarrow>
                   \<lparr>disk_after = disk,
                    state_after = Some (state2\<lparr>syncedMessageUuids :=
                        map_option (\<lambda>_. synced) (syncedMessageUuids state1)\<rparr>),
                    requests = sent, thrown = Some e\<rparr>
               | (state2, synced, sent, None) \<Rightarrow>
                   stop_finish w disk sessionState sid
                     (state2\<lparr>syncedMessageUuids := Some synced\<rparr>) sent)
         else stop_finish w disk sessionState sid state [])"

record Config =
  convexUrl :: string
  apiKey :: string
  autoSync :: "bool option"
  syncToolCalls :: "bool option"
  syncThinking :: "bool option"

text \<open>The \<open>switch\<close> inside the command's \<open>try\<close>.\<close>

definition hook_switch :: "Config \<Rightarrow> World \<Rightarrow> Disk \<Rightarrow> hook_event \<Rightarrow> Result" where
  "hook_switch config w disk event =
     (let sessionState = loadSessionState disk in
      case event of
        SessionStart d \<Rightarrow> hook_SessionStart w disk sessionState d
      | SessionEnd d \<Rightarrow> hook_SessionEnd w disk sessionState d
      | UserPromptSubmit d \<Rightarrow> hook_UserPromptSubmit w disk sessionState d
      | PostToolUse d \<Rightarrow> hook_PostToolUse (syncToolCalls config) w disk sessionState d
      | Stop d \<Rightarrow> hook_Stop w disk sessionState d
      | UnknownEvent name \<Rightarrow>
          \<lparr>disk_after = disk, state_after = None, requests = [], thrown = None\<rparr>)"

text \<open>
  The command: it leaves at once without a configuration, with \<open>autoSync\<close> off, or
  with nothing on standard input (\<open>None\<close>); otherwise it runs the switch, writes a
  caught exception to the error stream, and calls \<open>process.exit(0)\<close> either way.
\<close>

record Outcome = Result +
  logged :: "hook_error option"
  exit_code :: int

definition exit_quietly :: "Disk \<Rightarrow> Outcome" where
  "exit_quietly disk =
     \<lparr>disk_after = disk, state_after = None, requests = [], thrown = None, logged = None,
      exit_code = 0\<rparr>"

definition hook :: "Config option \<Rightarrow> World \<Rightarrow> Disk \<Rightarrow> hook_event option \<Rightarrow> Outcome" where
  "hook config w disk stdin =
     (case config of
        None \<Rightarrow> exit_quietly disk
      | Some c \<Rightarrow>
          if autoSync c = Some False then exit_quietly disk
          else
            (case stdin of
               None \<Rightarrow> exit_quietly disk
             | Some event \<Rightarrow>
                 (let r = hook_switch c w disk event in
                  \<lparr>disk_after = disk_after r, state_after = state_after r,
                   requests = requests r, thrown = thrown r, logged = thrown r,
                   exit_code = 0\<rparr>)))"

section \<open>Observations on invocations\<close>

text \<open>
  What the properties below read off an invocation: the identifiers of the Message
  records among its requests, the uuids of the extracted assistant turns that carry one,
  the message count and the synced identifiers a state file holds for a session (an
  absent accumulator or field counting as 0 and as no identifier), and the effect of a
  sequence of invocations, each in a world of its own, on the state file.
\<close>

fun message_ids :: "sync_record list \<Rightarrow> string list" where
  "message_ids [] = []"
| "message_ids (MessageRec m # rs) = m_messageId m # message_ids rs"
| "message_ids (SessionRec s # rs) = message_ids rs"


text \<open>The assistant turns a Stop invocation extracts, and its accumulator before the loop.\<close>

definition stop_turns :: "World \<Rightarrow> HookStopData \<Rightarrow> AssistantMessage list" where
  "stop_turns w d =
     (if truthy (transcript_path d)
      then assistantMessages (parseTranscriptFile w (the (transcript_path d))) else [])"

definition stop_usage :: "World \<Rightarrow> HookStopData \<Rightarrow> TokenUsage" where
  "stop_usage w d = pt_tokenUsage (parseTranscriptFile w (the (transcript_path d)))"

definition stop_before :: "World \<Rightarrow> SessionState \<Rightarrow> HookStopData \<Rightarrow> Accumulator" where
  "stop_before w ss d =
     (let state = state_or_empty ss (stop_session_id d) in
      if truthy (transcript_path d)
         \<and> (tu_input (stop_usage w d) > 0 \<or> tu_output (stop_usage w d) > 0)
      then state\<lparr>tokenUsage := Some (stop_usage w d)\<rparr> else state)"

text \<open>An accumulator as \<open>loadSessionState\<close> returns it.\<close>

definition normalised :: "Accumulator \<Rightarrow> Accumulator" where
  "normalised s = s\<lparr>syncedMessageUuids := map_option new_Set (syncedMessageUuids s)\<rparr>"

definition count_of :: "Disk \<Rightarrow> string \<Rightarrow> int" where
  "count_of disk sid = or_zero (messageCount (state_or_empty (loadSessionState disk) sid))"

definition synced_of :: "Disk \<Rightarrow> string \<Rightarrow> string set" where
  "synced_of disk sid =
     (case syncedMessageUuids (state_or_empty (loadSessionState disk) sid) of
        None \<Rightarrow> {} | Some s \<Rightarrow> set s)"


fun run :: "Config \<Rightarrow> Disk \<Rightarrow> (World \<times> hook_event) list \<Rightarrow> Disk \<times> sync_record list" where
  "run config disk [] = (disk, [])"
| "run config disk ((w, event) # steps) =
     (let r = hook_switch config w disk event;
          (disk', sent) = run config (disk_after r) steps
      in (disk', requests r @ sent))"

section \<open>Example inputs\<close>

text \<open>
  The inputs at which the theorems below are instantiated: a configuration, a world
  given by its files and its collector, a transcript entry of an assistant turn with one
  text part and a usage of 100 input and 50 output tokens, payloads for session \<open>S1\<close>
  (the Stop payload names the transcript \<open>t.jsonl\<close>), and the state file after that
  session's start and first prompt.
\<close>

definition example_config :: Config where
  "example_config = \<lparr>convexUrl = ''https://example.convex.site'', apiKey = ''key'',
     autoSync = None, syncToolCalls = Some True, syncThinking = None\<rparr>"

definition example_world :: "(string \<Rightarrow> fs_node option) \<Rightarrow> (nat \<Rightarrow> bool) \<Rightarrow> World" where
  "example_world fs net = \<lparr>files = fs, net_ok = net, now_ms = 1700000000000,
     now_iso = ''2023-11-14T22:13:20.000Z'', writable = True\<rparr>"

definition example_entry :: "string option \<Rightarrow> transcript_line" where
  "example_entry uuid = EntryLine
     \<lparr>entry_type = Some ''assistant'', entry_uuid = uuid,
      entry_timestamp = Some ''2023-11-14T22:13:19.000Z'',
      entry_message = Some
        \<lparr>tm_content = Some [\<lparr>part_type = ''text'', part_text = Some ''done'',
                               part_thinking = None\<rparr>],
         tm_usage = Some \<lparr>input_tokens = Some 100, output_tokens = Some 50,
                           cache_read_input_tokens = None,
                           cache_creation_input_tokens = None\<rparr>,
         tm_model = Some ''claude-sonnet-4-20250514'', tm_stop_reason = None\<rparr>\<rparr>"

definition example_files :: "transcript_line list \<Rightarrow> string \<Rightarrow> fs_node option" where
  "example_files ls = (\<lambda>p. if p = ''t.jsonl'' then Some (Lines ls) else None)"

definition example_stop :: HookStopData where
  "example_stop = \<lparr>stop_session_id = ''S1'', transcript_path = Some ''t.jsonl'',
     stop_hook_active = None, stop_permission_mode = None, stop_cwd = None,
     hook_event_name = Some ''Stop''\<rparr>"

definition example_prompt :: HookUserPromptData where
  "example_prompt = \<lparr>prompt_session_id = ''S1'', prompt = ''fix bug'',
     prompt_timestamp = None\<rparr>"

definition example_start :: HookSessionStartData where
  "example_start = \<lparr>start_session_id = ''S1'', start_cwd = Some ''/home/u/proj'',
     start_model = Some ''claude-sonnet-4-20250514'', start_permission_mode = None,
     start_source = Some ''startup'', start_thinking_enabled = None,
     start_mcp_servers = None\<rparr>"

definition example_end :: "int option \<Rightarrow> HookSessionEndData" where
  "example_end count = \<lparr>end_session_id = ''S1'', end_reason = Some ''other'',
     message_count = count, tool_call_count = Some 3,
     total_token_usage = Some \<lparr>tu_input = 100, tu_output = 50\<rparr>,
     cost_estimate = Some (1 / 4)\<rparr>"

definition example_disk :: Disk where
  "example_disk = File (Map.empty(''S1'' \<mapsto>
     \<lparr>model = Some ''claude-sonnet-4-20250514'', firstPrompt = Some ''fix bug'',
      tokenUsage = Some \<lparr>tu_input = 0, tu_output = 0\<rparr>, messageCount = Some 1,
      syncedMessageUuids = None\<rparr>))"

definition all_ok :: "nat \<Rightarrow> bool" where
  "all_ok i = True"

definition fails_at :: "nat \<Rightarrow> nat \<Rightarrow> bool" where
  "fails_at k i = (i \<noteq> k)"

section \<open>Properties of the string helpers\<close>

lemma lastIndexOf_last_occurrence:
  assumes "i < length t" and "t ! i = c" and "\<forall>j. i < j \<and> j < length t \<longrightarrow> t ! j \<noteq> c"
  shows "lastIndexOf t c = int i"
proof -
  have split: "t = take i t @ c # drop (Suc i) t"
    using assms(1,2) by (metis id_take_nth_drop)
  have tail: "c \<notin> set (drop (Suc i) t)"
  proof
    assume "c \<in> set (drop (Suc i) t)"
    then obtain k where k: "k < length (drop (Suc i) t)" "drop (Suc i) t ! k = c"
      by (auto simp: in_set_conv_nth)
    then have "t ! (Suc i + k) = c" "Suc i + k < length t" by auto
    with assms(3) show False by (metis less_add_Suc1 add_Suc)
  qed
  have "rev t = rev (drop (Suc i) t) @ c # rev (take i t)"
    by (subst split) simp
  then have "takeWhile (\<lambda>x. x \<noteq> c) (rev t) = rev (drop (Suc i) t)"
    using tail by (auto simp: takeWhile_tail)
  moreover have "c \<in> set t" using assms(1,2) by (auto simp: in_set_conv_nth)
  ultimately show ?thesis using assms(1) by (simp add: lastIndexOf_def)
qed

lemma lastIndexOf_absent: "c \<notin> set t \<Longrightarrow> lastIndexOf t c = - 1"
  by (simp add: lastIndexOf_def)

lemma takeWhile_stops: "c \<in> set xs \<Longrightarrow> length (takeWhile (\<lambda>x. x \<noteq> c) xs) < length xs"
  by (induction xs) auto

lemma lastIndexOf_is_index:
  assumes "c \<in> set t"
  shows "0 \<le> lastIndexOf t c \<and> nat (lastIndexOf t c) < length t \<and> t ! nat (lastIndexOf t c) = c"
proof -
  let ?k = "length (takeWhile (\<lambda>x. x \<noteq> c) (rev t))"
  have k: "?k < length (rev t)"
    using assms takeWhile_stops [of c "rev t"] by simp
  then have nk: "\<not> (rev t ! ?k \<noteq> c)" by (rule nth_length_takeWhile)
  define n where "n = length t - Suc ?k"
  have "t ! n = c" using k nk by (simp add: rev_nth n_def)
  moreover have "n < length t" using k by (simp add: n_def)
  moreover have "int (length t) - 1 - int ?k = int n"
    using k by (simp add: n_def)
  then have "lastIndexOf t c = int n"
    using assms by (simp only: lastIndexOf_def if_True)
  ultimately show ?thesis by simp
qed

lemma trim_unchanged:
  assumes "s = [] \<or> (\<not> is_white_space (hd s) \<and> \<not> is_white_space (last s))"
  shows "trim s = s"
proof (cases s)
  case Nil
  then show ?thesis by (simp add: trim_def)
next
  case (Cons a s')
  with assms have a: "\<not> is_white_space a" and l: "\<not> is_white_space (last s)" by auto
  have "dropWhile is_white_space s = s" using a Cons by simp
  moreover have "dropWhile is_white_space (rev s) = rev s"
  proof (cases "rev s")
    case Nil
    then show ?thesis by simp
  next
    case (Cons b r)
    then have b: "b = last s" by (metis hd_rev list.sel(1))
    have "dropWhile is_white_space (b # r) = b # r" using l b by simp
    then show ?thesis using Cons by (simp only:)
  qed
  ultimately show ?thesis by (simp add: trim_def)
qed

lemma space_is_white: "is_white_space CHR '' ''"
  by (simp add: is_white_space_def)

lemma letters_not_white: "\<not> is_white_space CHR ''a''" "\<not> is_white_space CHR ''b''"
  by (simp_all add: is_white_space_def)

section \<open>Title derivation\<close>

lemma generateTitle_long:
  "length p > 80 \<Longrightarrow> generateTitle p =
     (if lastIndexOf (trim (take 80 p)) CHR '' '' > 40
      then take (nat (lastIndexOf (trim (take 80 p)) CHR '' '')) (trim (take 80 p)) @ ''...''
      else trim (take 80 p) @ ''...'')"
  by (simp add: generateTitle_def Let_def)

lemma window_clean:
  assumes "length p \<ge> 80" "\<not> is_white_space (p ! 0)" "\<not> is_white_space (p ! 79)"
  shows "trim (take 80 p) = take 80 p"
proof -
  have "take 80 p \<noteq> []" using assms(1) by auto
  moreover have "hd (take 80 p) = p ! 0"
    using assms(1) \<open>take 80 p \<noteq> []\<close> by (simp add: hd_conv_nth)
  moreover have "last (take 80 p) = p ! 79"
    using assms(1) \<open>take 80 p \<noteq> []\<close> by (simp add: last_conv_nth min_def)
  ultimately show ?thesis using assms(2,3) by (simp add: trim_unchanged)
qed

text \<open>
  C5, as the code has it. With \<open>t\<close> the first 80 characters of the prompt with white
  space trimmed from both ends: a prompt of at most 80 characters gives the trimmed
  prompt; a longer prompt gives \<open>t\<close> cut before its last space followed by \<open>...\<close> when
  that space is at a zero-based index greater than 40, and \<open>t\<close> followed by \<open>...\<close> when
  \<open>t\<close> has no space beyond index 40. In particular a 50-character prompt that neither
  starts nor ends with white space is its own title; a 100-character prompt whose only
  white space among the first 80 characters is a space at index 45 gives its first 45
  characters and \<open>...\<close>; a 100-character prompt with no white space among its first 80
  characters gives these 80 characters and \<open>...\<close>.
\<close>

theorem generateTitle_word_boundary:
  assumes t: "t = trim (take 80 p)"
  shows
   "(length p \<le> 80 \<longrightarrow> generateTitle p = trim p) \<and>
    (length p > 80 \<and> i < length t \<and> t ! i = CHR '' '' \<and> 40 < i
       \<and> (\<forall>j. i < j \<and> j < length t \<longrightarrow> t ! j \<noteq> CHR '' '')
       \<longrightarrow> generateTitle p = take i t @ ''...'') \<and>
    (length p > 80 \<and> (\<forall>j. 40 < j \<and> j < length t \<longrightarrow> t ! j \<noteq> CHR '' '')
       \<longrightarrow> generateTitle p = t @ ''...'') \<and>
    (length p = 50 \<and> \<not> is_white_space (hd p) \<and> \<not> is_white_space (last p)
       \<longrightarrow> generateTitle p = p) \<and>
    (length p = 100 \<and> p ! 45 = CHR '' '' \<and> (\<forall>j < 80. j \<noteq> 45 \<longrightarrow> \<not> is_white_space (p ! j))
       \<longrightarrow> generateTitle p = take 45 p @ ''...'') \<and>
    (length p = 100 \<and> (\<forall>j < 80. \<not> is_white_space (p ! j))
       \<longrightarrow> generateTitle p = take 80 p @ ''...'')"
proof (intro conjI impI)
  assume "length p \<le> 80"
  then show "generateTitle p = trim p" by (simp add: generateTitle_def)
next
  assume a: "length p > 80 \<and> i < length t \<and> t ! i = CHR '' '' \<and> 40 < i
       \<and> (\<forall>j. i < j \<and> j < length t \<longrightarrow> t ! j \<noteq> CHR '' '')"
  then have "lastIndexOf t CHR '' '' = int i"
    by (intro lastIndexOf_last_occurrence) auto
  with a show "generateTitle p = take i t @ ''...''"
    by (simp add: generateTitle_long t)
next
  assume a: "length p > 80 \<and> (\<forall>j. 40 < j \<and> j < length t \<longrightarrow> t ! j \<noteq> CHR '' '')"
  have "\<not> lastIndexOf t CHR '' '' > 40"
  proof (cases "CHR '' '' \<in> set t")
    case True
    define n where "n = nat (lastIndexOf t CHR '' '')"
    from lastIndexOf_is_index [OF True]
    have n: "lastIndexOf t CHR '' '' = int n" "n < length t" "t ! n = CHR '' ''"
      by (simp_all add: n_def)
    with a have "\<not> 40 < n" by blast
    with n(1) show ?thesis by simp
  next
    case False
    then show ?thesis by (simp add: lastIndexOf_absent)
  qed
  with a show "generateTitle p = t @ ''...''"
    by (simp add: generateTitle_long t)
next
  assume a: "length p = 50 \<and> \<not> is_white_space (hd p) \<and> \<not> is_white_space (last p)"
  then have "trim p = p" by (simp add: trim_unchanged)
  with a show "generateTitle p = p" by (simp add: generateTitle_def)
next
  assume a: "length p = 100 \<and> p ! 45 = CHR '' '' \<and> (\<forall>j < 80. j \<noteq> 45 \<longrightarrow> \<not> is_white_space (p ! j))"
  then have w: "trim (take 80 p) = take 80 p" by (intro window_clean) auto
  have "lastIndexOf (take 80 p) CHR '' '' = int 45"
  proof (rule lastIndexOf_last_occurrence)
    show "45 < length (take 80 p)" using a by simp
    show "take 80 p ! 45 = CHR '' ''" using a by simp
    show "\<forall>j. 45 < j \<and> j < length (take 80 p) \<longrightarrow> take 80 p ! j \<noteq> CHR '' ''"
      using a space_is_white by (auto simp: min_def)
  qed
  with a w show "generateTitle p = take 45 p @ ''...''"
    by (simp add: generateTitle_long min_def)
next
  assume a: "length p = 100 \<and> (\<forall>j < 80. \<not> is_white_space (p ! j))"
  then have w: "trim (take 80 p) = take 80 p" by (intro window_clean) auto
  have "CHR '' '' \<notin> set (take 80 p)"
  proof
    assume "CHR '' '' \<in> set (take 80 p)"
    then obtain k where "k < length (take 80 p)" "take 80 p ! k = CHR '' ''"
      by (auto simp: in_set_conv_nth)
    with a space_is_white show False by (auto simp: min_def)
  qed
  then have "lastIndexOf (take 80 p) CHR '' '' = - 1" by (rule lastIndexOf_absent)
  with a w show "generateTitle p = take 80 p @ ''...''"
    by (simp add: generateTitle_long)
qed

text \<open>
  The theorem at a short prompt, at a prompt with its only space at index 45, at a
  prompt without any space, and at a 50-character prompt.
\<close>

theorem generateTitle_word_boundary_witness:
  "generateTitle ''fix bug'' = ''fix bug''
   \<and> generateTitle (replicate 45 CHR ''a'' @ '' '' @ replicate 54 CHR ''b'')
       = replicate 45 CHR ''a'' @ ''...''
   \<and> generateTitle (replicate 100 CHR ''a'') = replicate 80 CHR ''a'' @ ''...''
   \<and> generateTitle (replicate 50 CHR ''a'') = replicate 50 CHR ''a''"
proof -
  let ?p = "replicate 45 CHR ''a'' @ '' '' @ replicate 54 CHR ''b''"
  let ?q = "replicate 100 CHR ''a''"
  let ?r = "replicate 50 CHR ''a''"
  have 1: "generateTitle ''fix bug'' = ''fix bug''"
    using generateTitle_word_boundary [OF refl, of "''fix bug''" 0]
    by (simp add: trim_def is_white_space_def)
  have "\<forall>j < 80. j \<noteq> 45 \<longrightarrow> \<not> is_white_space (?p ! j)"
    by (auto simp: nth_append nth_Cons' letters_not_white)
  then have h: "length ?p = 100 \<and> ?p ! 45 = CHR '' ''
      \<and> (\<forall>j < 80. j \<noteq> 45 \<longrightarrow> \<not> is_white_space (?p ! j))"
    by (simp add: nth_append)
  have 2: "generateTitle ?p = replicate 45 CHR ''a'' @ ''...''"
    using generateTitle_word_boundary [OF refl, of ?p 0] h by simp
  have 3: "generateTitle ?q = replicate 80 CHR ''a'' @ ''...''"
    using generateTitle_word_boundary [OF refl, of ?q 0]
    by (simp add: letters_not_white)
  have "length ?r = 50 \<and> \<not> is_white_space (hd ?r) \<and> \<not> is_white_space (last ?r)"
    by (simp add: letters_not_white hd_replicate last_replicate)
  with generateTitle_word_boundary [OF refl, of ?r 0]
  have 4: "generateTitle ?r = ?r" by blast
  from 1 2 3 4 show ?thesis by blast
qed

text \<open>
  C5 as stated fails. A 100-character prompt whose last space is character 41 (index
  40) is not cut at the space, although the space is at or after the 40th character; a
  100-character prompt with no space before character 40 and a space at index 60 is cut
  there and does not give its first 80 characters; and a prompt that starts with a space
  does not give the raw 80-character cut.
\<close>

theorem generateTitle_threshold_counterexample:
  "generateTitle (replicate 40 CHR ''a'' @ '' '' @ replicate 59 CHR ''b'')
     = replicate 40 CHR ''a'' @ '' '' @ replicate 39 CHR ''b'' @ ''...''
   \<and> claimed_title (replicate 40 CHR ''a'' @ '' '' @ replicate 59 CHR ''b'')
     = replicate 40 CHR ''a'' @ ''...''
   \<and> generateTitle (replicate 60 CHR ''a'' @ '' '' @ replicate 39 CHR ''b'')
     = replicate 60 CHR ''a'' @ ''...''
   \<and> generateTitle ('' '' @ replicate 99 CHR ''a'') = replicate 79 CHR ''a'' @ ''...''
   \<and> claimed_title ('' '' @ replicate 99 CHR ''a'') = '' '' @ replicate 79 CHR ''a'' @ ''...''"
  by code_simp

section \<open>Cost calculation\<close>

lemma str_includes_iff: "str_includes s k \<longleftrightarrow> (\<exists>a b. s = a @ k @ b)"
proof (induction s)
  case Nil
  then show ?case by auto
next
  case (Cons c s)
  show ?case
  proof
    assume "str_includes (c # s) k"
    then consider "take (length k) (c # s) = k" | "str_includes s k" by auto
    then show "\<exists>a b. c # s = a @ k @ b"
    proof cases
      case 1
      then have "c # s = [] @ k @ drop (length k) (c # s)"
        by (metis append_Nil append_take_drop_id)
      then show ?thesis by blast
    next
      case 2
      with Cons obtain a b where "s = a @ k @ b" by blast
      then have "c # s = (c # a) @ k @ b" by simp
      then show ?thesis by blast
    qed
  next
    assume "\<exists>a b. c # s = a @ k @ b"
    then obtain a b where ab: "c # s = a @ k @ b" by blast
    show "str_includes (c # s) k"
    proof (cases a)
      case Nil
      with ab have "take (length k) (c # s) = k" by simp
      then show ?thesis by simp
    next
      case (Cons x a')
      with ab have "s = a' @ k @ b" by simp
      with Cons.IH show ?thesis by auto
    qed
  qed
qed









section \<open>The loop of the Stop case\<close>

lemma message_ids_append: "message_ids (xs @ ys) = message_ids xs @ message_ids ys"
  by (induction xs rule: message_ids.induct) auto

lemma stop_loop_Cons:
  "stop_loop w sid (msg # msgs) st syn sent =
     (if am_uuid msg \<noteq> [] \<and> am_uuid msg \<in> set syn then stop_loop w sid msgs st syn sent
      else if net_ok w (length sent)
      then stop_loop w sid msgs (increment_messageCount st)
             (if am_uuid msg \<noteq> [] then syn @ [am_uuid msg] else syn)
             (sent @ [MessageRec (assistant_message w sid msg)])
      else (increment_messageCount st, (if am_uuid msg \<noteq> [] then syn @ [am_uuid msg] else syn),
            sent @ [MessageRec (assistant_message w sid msg)],
            Some (SyncFailed (MessageRec (assistant_message w sid msg)))))"
  by (simp add: Let_def set_add_def increment_messageCount_def)

declare stop_loop.simps(2) [simp del]

lemma increment_fields:
  "model (increment_messageCount st) = model st" "firstPrompt (increment_messageCount st) = firstPrompt st"
  "tokenUsage (increment_messageCount st) = tokenUsage st" "syncedMessageUuids (increment_messageCount st) = syncedMessageUuids st"
  "or_zero (messageCount (increment_messageCount st)) = or_zero (messageCount st) + 1"
  by (simp_all add: increment_messageCount_def or_zero_def)

lemma stop_loop_extends:
  "stop_loop w sid msgs st syn sent = (st', syn', sent', err) \<Longrightarrow>
     \<exists>new. sent' = sent @ new \<and> (\<forall>r \<in> set new. \<exists>m. r = MessageRec m)"
proof (induction msgs arbitrary: st syn sent)
  case Nil
  then show ?case by simp
next
  case (Cons msg msgs)
  then show ?case
    by (fastforce simp: stop_loop_Cons split: if_splits)
qed

lemma stop_loop_state:
  "stop_loop w sid msgs st syn sent = (st', syn', sent', err) \<Longrightarrow>
     model st' = model st \<and> firstPrompt st' = firstPrompt st \<and> tokenUsage st' = tokenUsage st
     \<and> syncedMessageUuids st' = syncedMessageUuids st
     \<and> (length sent' = length sent \<longrightarrow> st' = st)
     \<and> or_zero (messageCount st') = or_zero (messageCount st) + int (length sent' - length sent)"
proof (induction msgs arbitrary: st syn sent)
  case Nil
  then show ?case by simp
next
  case (Cons msg msgs)
  show ?case
  proof (cases "am_uuid msg \<noteq> [] \<and> am_uuid msg \<in> set syn")
    case True
    with Cons show ?thesis by (simp add: stop_loop_Cons)
  next
    case skip: False
    show ?thesis
    proof (cases "net_ok w (length sent)")
      case False
      with skip Cons.prems show ?thesis by (auto simp: stop_loop_Cons increment_fields)
    next
      case True
      let ?syn = "if am_uuid msg \<noteq> [] then syn @ [am_uuid msg] else syn"
      let ?sent = "sent @ [MessageRec (assistant_message w sid msg)]"
      from skip True Cons.prems
      have run: "stop_loop w sid msgs (increment_messageCount st) ?syn ?sent = (st', syn', sent', err)"
        by (auto simp: stop_loop_Cons split: if_splits)
      from stop_loop_extends [OF run] have len: "length sent' \<ge> Suc (length sent)" by auto
      from Cons.IH [OF run] len show ?thesis
        by (simp add: increment_fields Suc_diff_le)
    qed
  qed
qed

lemma stop_loop_net:
  "stop_loop w sid msgs st syn sent = (st', syn', sent', err) \<Longrightarrow>
     (\<forall>i. length sent \<le> i \<and> Suc i < length sent' \<longrightarrow> net_ok w i)
     \<and> (err = None \<longrightarrow> (\<forall>i. length sent \<le> i \<and> i < length sent' \<longrightarrow> net_ok w i))
     \<and> (\<forall>e. err = Some e \<longrightarrow> length sent < length sent' \<and> e = SyncFailed (last sent')
            \<and> \<not> net_ok w (length sent' - 1) \<and> (\<exists>m. last sent' = MessageRec m))"
proof (induction msgs arbitrary: st syn sent)
  case Nil
  then show ?case by auto
next
  case (Cons msg msgs)
  show ?case
  proof (cases "am_uuid msg \<noteq> [] \<and> am_uuid msg \<in> set syn")
    case True
    with Cons.prems have "stop_loop w sid msgs st syn sent = (st', syn', sent', err)"
      by (simp add: stop_loop_Cons)
    from Cons.IH [OF this] show ?thesis .
  next
    case skip: False
    show ?thesis
    proof (cases "net_ok w (length sent)")
      case False
      with skip Cons.prems show ?thesis by (auto simp: stop_loop_Cons)
    next
      case True
      let ?syn = "if am_uuid msg \<noteq> [] then syn @ [am_uuid msg] else syn"
      let ?sent = "sent @ [MessageRec (assistant_message w sid msg)]"
      from skip True Cons.prems
      have run: "stop_loop w sid msgs (increment_messageCount st) ?syn ?sent = (st', syn', sent', err)"
        by (auto simp: stop_loop_Cons split: if_splits)
      from Cons.IH [OF run]
      have ih1: "\<forall>i. length ?sent \<le> i \<and> Suc i < length sent' \<longrightarrow> net_ok w i"
        and ih2: "err = None \<longrightarrow> (\<forall>i. length ?sent \<le> i \<and> i < length sent' \<longrightarrow> net_ok w i)"
        and ih3: "\<forall>e. err = Some e \<longrightarrow> length ?sent < length sent' \<and> e = SyncFailed (last sent')
            \<and> \<not> net_ok w (length sent' - 1) \<and> (\<exists>m. last sent' = MessageRec m)"
        by blast+
      have 1: "\<forall>i. length sent \<le> i \<and> Suc i < length sent' \<longrightarrow> net_ok w i"
      proof (intro allI impI)
        fix i assume a: "length sent \<le> i \<and> Suc i < length sent'"
        show "net_ok w i"
        proof (cases "i = length sent")
          case True
          with \<open>net_ok w (length sent)\<close> show ?thesis by simp
        next
          case False
          with a have "length ?sent \<le> i" by simp
          with a ih1 show ?thesis by blast
        qed
      qed
      have 2: "err = None \<longrightarrow> (\<forall>i. length sent \<le> i \<and> i < length sent' \<longrightarrow> net_ok w i)"
      proof (intro allI impI)
        fix i assume e: "err = None" and a: "length sent \<le> i \<and> i < length sent'"
        show "net_ok w i"
        proof (cases "i = length sent")
          case True
          with \<open>net_ok w (length sent)\<close> show ?thesis by simp
        next
          case False
          with a have "length ?sent \<le> i" by simp
          with a e ih2 show ?thesis by blast
        qed
      qed
      have 3: "\<forall>e. err = Some e \<longrightarrow> length sent < length sent' \<and> e = SyncFailed (last sent')
            \<and> \<not> net_ok w (length sent' - 1) \<and> (\<exists>m. last sent' = MessageRec m)"
        using ih3 by auto
      from 1 2 3 show ?thesis by blast
    qed
  qed
qed










section \<open>The state store and the Stop case\<close>


lemma distinct_new_Set: "distinct (new_Set xs)"
  by (simp add: new_Set_def)

lemma new_Set_distinct: "distinct xs \<Longrightarrow> new_Set xs = xs"
  by (simp add: new_Set_def distinct_remdups_id)

lemma load_File: "loadSessionState (File ss) sid = map_option normalised (ss sid)"
  by (cases "ss sid") (simp_all add: loadSessionState_def normalised_def)



lemma normalised_fields:
  "model (normalised s) = model s" "firstPrompt (normalised s) = firstPrompt s"
  "tokenUsage (normalised s) = tokenUsage s" "messageCount (normalised s) = messageCount s"
  "syncedMessageUuids (normalised s) = map_option new_Set (syncedMessageUuids s)"
  by (simp_all add: normalised_def)

lemma loaded_distinct:
  "syncedMessageUuids (state_or_empty (loadSessionState disk) sid) = Some s \<Longrightarrow> distinct s"
  by (cases disk)
     (auto simp: state_or_empty_def loadSessionState_def empty_state_def distinct_new_Set
           split: option.splits)

lemma stop_finish_fields:
  "requests (stop_finish w disk ss sid st sent) =
      sent @ [SessionRec ((session_data sid)\<lparr>s_tokenUsage := tokenUsage st,
                                              s_messageCount := messageCount st\<rparr>)]"
  "state_after (stop_finish w disk ss sid st sent) = Some st"
  "disk_after (stop_finish w disk ss sid st sent) = saveSessionState w disk (ss(sid \<mapsto> st))"
  "thrown (stop_finish w disk ss sid st sent) =
      (if net_ok w (length sent) then None
       else Some (SyncFailed (SessionRec ((session_data sid)\<lparr>s_tokenUsage := tokenUsage st,
                                              s_messageCount := messageCount st\<rparr>))))"
  by (simp_all add: stop_finish_def sync_last_def Let_def)

text \<open>The Stop case in terms of its loop.\<close>

lemma hook_Stop_unfold:
  assumes "stop_loop w (stop_session_id d) (stop_turns w d) (stop_before w ss d)
      (case syncedMessageUuids (state_or_empty ss (stop_session_id d)) of Some s \<Rightarrow> s | None \<Rightarrow> []) []
      = (st2, syn, sent, err)"
  shows "hook_Stop w disk ss d =
     (if truthy (transcript_path d) then
        (case err of
           Some e \<Rightarrow> \<lparr>disk_after = disk,
               state_after = Some (st2\<lparr>syncedMessageUuids :=
                   map_option (\<lambda>_. syn) (syncedMessageUuids (state_or_empty ss (stop_session_id d)))\<rparr>),
               requests = sent, thrown = Some e\<rparr>
         | None \<Rightarrow> stop_finish w disk ss (stop_session_id d) (st2\<lparr>syncedMessageUuids := Some syn\<rparr>) sent)
      else stop_finish w disk ss (stop_session_id d) (state_or_empty ss (stop_session_id d)) [])"
proof (cases "truthy (transcript_path d)")
  case False
  then show ?thesis by (simp add: hook_Stop_def Let_def)
next
  case True
  have s: "syncedMessageUuids (stop_before w ss d)
      = syncedMessageUuids (state_or_empty ss (stop_session_id d))"
    by (simp add: stop_before_def Let_def)
  show ?thesis
    using True assms
    by (cases err)
       (auto simp: hook_Stop_def Let_def stop_turns_def stop_before_def stop_usage_def
          split: if_splits)
qed


lemma stop_before_fields:
  "model (stop_before w ss d) = model (state_or_empty ss (stop_session_id d))"
  "firstPrompt (stop_before w ss d) = firstPrompt (state_or_empty ss (stop_session_id d))"
  "messageCount (stop_before w ss d) = messageCount (state_or_empty ss (stop_session_id d))"
  "syncedMessageUuids (stop_before w ss d) = syncedMessageUuids (state_or_empty ss (stop_session_id d))"
  "tokenUsage (stop_before w ss d) =
     (if truthy (transcript_path d)
         \<and> (tu_input (stop_usage w d) > 0 \<or> tu_output (stop_usage w d) > 0)
      then Some (stop_usage w d) else tokenUsage (state_or_empty ss (stop_session_id d)))"
  by (auto simp: stop_before_def Let_def)



lemmas example_defs = example_config_def example_world_def example_entry_def example_files_def
  example_stop_def example_prompt_def example_start_def example_end_def example_disk_def
  all_ok_def fails_at_def

lemmas hook_defs = hook_switch_def hook_Stop_def hook_UserPromptSubmit_def hook_SessionStart_def
  hook_SessionEnd_def hook_PostToolUse_def stop_finish_def sync_last_def parseTranscriptFile_def
  empty_transcript_def or_default_def add_usage_def or_zero_def truthy_def truthy_num_def or_num_def or_str_def
  state_or_empty_def empty_state_def loadSessionState_def saveSessionState_def Let_def
  stop_loop_Cons increment_messageCount_def count_of_def synced_of_def new_Set_def session_data_def


section \<open>The Stop case: order of requests, missing transcripts, turns without a uuid\<close>

lemma message_ids_all_messages:
  "\<forall>r \<in> set rs. \<exists>m. r = MessageRec m \<Longrightarrow> length (message_ids rs) = length rs"
  by (induction rs rule: message_ids.induct) auto

lemma message_ids_snoc_session: "message_ids (rs @ [SessionRec s]) = message_ids rs"
  by (simp add: message_ids_append)



text \<open>
  C9. On every Stop event the requests to the collector are issued one after the other,
  each only after every earlier one has returned without throwing; the Session update is
  the last request, after every Message record, it is present when no request throws,
  and it carries the \<open>tokenUsage\<close> and \<open>messageCount\<close> of the accumulator, whose
  count has grown by one for each Message record issued before it.
\<close>

theorem stop_request_order:
  assumes r: "r = hook_switch c w disk (Stop d)"
    and before: "before = state_or_empty (loadSessionState disk) (stop_session_id d)"
  shows
   "(\<forall>i. Suc i < length (requests r) \<longrightarrow> net_ok w i) \<and>
    (\<forall>i s. i < length (requests r) \<and> requests r ! i = SessionRec s
       \<longrightarrow> Suc i = length (requests r)
           \<and> (\<exists>st. state_after r = Some st
                 \<and> s = (session_data (stop_session_id d))
                       \<lparr>s_tokenUsage := tokenUsage st, s_messageCount := messageCount st\<rparr>)) \<and>
    (\<exists>st. state_after r = Some st
        \<and> or_zero (messageCount st)
            = or_zero (messageCount before) + int (length (message_ids (requests r)))) \<and>
    ((\<forall>i < length (requests r). net_ok w i)
       \<longrightarrow> thrown r = None \<and> (\<exists>s. last (requests r) = SessionRec s))"
proof -
  let ?ss = "loadSessionState disk"
  let ?sid = "stop_session_id d"
  let ?syn0 = "case syncedMessageUuids (state_or_empty ?ss ?sid) of Some s \<Rightarrow> s | None \<Rightarrow> []"
  obtain st2 syn sent err where loop:
    "stop_loop w ?sid (stop_turns w d) (stop_before w ?ss d) ?syn0 [] = (st2, syn, sent, err)"
    by (metis prod_cases4)
  note unfold = hook_Stop_unfold [OF loop, of disk]
  have rr: "r = hook_Stop w disk ?ss d" using r by (simp add: hook_switch_def)
  from stop_loop_extends [OF loop]
  have msgs: "\<forall>x \<in> set sent. \<exists>m. x = MessageRec m" by simp
  from stop_loop_state [OF loop]
  have cnt: "or_zero (messageCount st2) = or_zero (messageCount before) + int (length sent)"
    and same: "length sent = 0 \<longrightarrow> st2 = stop_before w ?ss d"
    by (simp_all add: stop_before_fields before)
  note net = stop_loop_net [OF loop]
  show ?thesis
  proof (cases "truthy (transcript_path d)")
    case False
    with unfold rr
    have "r = stop_finish w disk ?ss ?sid (state_or_empty ?ss ?sid) []" by simp
    then show ?thesis
      by (auto simp: stop_finish_fields before)
  next
    case True
    show ?thesis
    proof (cases err)
      case None
      let ?st = "st2\<lparr>syncedMessageUuids := Some syn\<rparr>"
      let ?s = "(session_data ?sid)\<lparr>s_tokenUsage := tokenUsage ?st, s_messageCount := messageCount ?st\<rparr>"
      from None unfold True rr
      have rf: "r = stop_finish w disk ?ss ?sid ?st sent" by simp
      then have req: "requests r = sent @ [SessionRec ?s]" and sa: "state_after r = Some ?st"
        and th: "thrown r = (if net_ok w (length sent) then None else Some (SyncFailed (SessionRec ?s)))"
        by (simp_all add: stop_finish_fields)
      have 1: "\<forall>i. Suc i < length (requests r) \<longrightarrow> net_ok w i"
        using net None req by simp
      have 2: "\<forall>i s. i < length (requests r) \<and> requests r ! i = SessionRec s
         \<longrightarrow> Suc i = length (requests r)
           \<and> (\<exists>st. state_after r = Some st
                 \<and> s = (session_data ?sid)
                       \<lparr>s_tokenUsage := tokenUsage st, s_messageCount := messageCount st\<rparr>)"
      proof (intro allI impI)
        fix i s assume a: "i < length (requests r) \<and> requests r ! i = SessionRec s"
        have "\<not> i < length sent"
        proof
          assume "i < length sent"
          then have "requests r ! i \<in> set sent" using req by (simp add: nth_append)
          with msgs a show False by auto
        qed
        with a req have i: "i = length sent" by simp
        with a req have "s = ?s" by simp
        with i req sa show "Suc i = length (requests r)
           \<and> (\<exists>st. state_after r = Some st
                 \<and> s = (session_data ?sid)
                       \<lparr>s_tokenUsage := tokenUsage st, s_messageCount := messageCount st\<rparr>)"
          by simp
      qed
      have 3: "\<exists>st. state_after r = Some st
        \<and> or_zero (messageCount st)
            = or_zero (messageCount before) + int (length (message_ids (requests r)))"
        using sa cnt req msgs
        by (simp add: message_ids_snoc_session message_ids_all_messages)
      have 4: "(\<forall>i < length (requests r). net_ok w i)
         \<longrightarrow> thrown r = None \<and> (\<exists>s. last (requests r) = SessionRec s)"
        using th req by simp
      from 1 2 3 4 show ?thesis by blast
    next
      case (Some e)
      from Some unfold True rr
      have req: "requests r = sent" and th: "thrown r = Some e"
        and sa: "state_after r = Some (st2\<lparr>syncedMessageUuids :=
                   map_option (\<lambda>_. syn) (syncedMessageUuids (state_or_empty ?ss ?sid))\<rparr>)"
        by simp_all
      from net Some have bad: "0 < length sent" "\<not> net_ok w (length sent - 1)" by auto
      have 1: "\<forall>i. Suc i < length (requests r) \<longrightarrow> net_ok w i"
        using net req by simp
      have 2: "\<forall>i s. i < length (requests r) \<and> requests r ! i = SessionRec s
         \<longrightarrow> Suc i = length (requests r)
           \<and> (\<exists>st. state_after r = Some st
                 \<and> s = (session_data ?sid)
                       \<lparr>s_tokenUsage := tokenUsage st, s_messageCount := messageCount st\<rparr>)"
        using msgs req by (metis nth_mem sync_record.distinct(1))
      have 3: "\<exists>st. state_after r = Some st
        \<and> or_zero (messageCount st)
            = or_zero (messageCount before) + int (length (message_ids (requests r)))"
        using sa cnt req msgs by (simp add: message_ids_all_messages)
      have 4: "(\<forall>i < length (requests r). net_ok w i)
         \<longrightarrow> thrown r = None \<and> (\<exists>s. last (requests r) = SessionRec s)"
        using bad req by (metis diff_less zero_less_one)
      from 1 2 3 4 show ?thesis by blast
    qed
  qed
qed

text \<open>The theorem at a transcript with one new turn and a collector that accepts everything.\<close>

theorem stop_request_order_witness:
  "thrown (hook_switch example_config
      (example_world (example_files [example_entry (Some ''u1'')]) all_ok) example_disk
      (Stop example_stop)) = None
   \<and> length (requests (hook_switch example_config
      (example_world (example_files [example_entry (Some ''u1'')]) all_ok) example_disk
      (Stop example_stop))) = 2
   \<and> (\<exists>s. last (requests (hook_switch example_config
      (example_world (example_files [example_entry (Some ''u1'')]) all_ok) example_disk
      (Stop example_stop))) = SessionRec s)
   \<and> (\<exists>st. state_after (hook_switch example_config
      (example_world (example_files [example_entry (Some ''u1'')]) all_ok) example_disk
      (Stop example_stop)) = Some st
        \<and> or_zero (messageCount st) = 1 + int (length (message_ids (requests (hook_switch
            example_config (example_world (example_files [example_entry (Some ''u1'')]) all_ok)
            example_disk (Stop example_stop))))))"
proof -
  let ?w = "example_world (example_files [example_entry (Some ''u1'')]) all_ok"
  let ?a = "hook_switch example_config ?w example_disk (Stop example_stop)"
  have ok: "\<And>i. net_ok ?w i" by (simp add: example_defs)
  have b: "or_zero (messageCount (state_or_empty (loadSessionState example_disk)
      (stop_session_id example_stop))) = 1"
    by (simp add: example_defs hook_defs)
  have second: "1 < length (requests ?a) \<and> (\<exists>s. requests ?a ! 1 = SessionRec s)"
    by (simp add: example_defs hook_defs)
  note T = stop_request_order [where w = ?w and c = example_config and disk = example_disk
      and d = example_stop, OF refl refl]
  from T second have len: "length (requests ?a) = 2" by fastforce
  from T ok b have rest: "thrown ?a = None \<and> (\<exists>s. last (requests ?a) = SessionRec s)
     \<and> (\<exists>st. state_after ?a = Some st
        \<and> or_zero (messageCount st) = 1 + int (length (message_ids (requests ?a))))"
    by simp
  from len rest show ?thesis by blast
qed

text \<open>
  C7. For a path that names no file the transcript parser returns the empty result: no
  assistant turn and a usage of zero. A Stop event that names such a path issues exactly
  one request, the Session update built from the accumulated state, and the command
  exits with status 0, with nothing logged when the collector accepts the update.
\<close>

theorem stop_missing_transcript:
  assumes missing: "files w p = None"
    and r: "r = hook (Some c) w disk (Some (Stop d))"
    and before: "before = state_or_empty (loadSessionState disk) (stop_session_id d)"
  shows
   "parseTranscriptFile w p = empty_transcript \<and>
    assistantMessages (parseTranscriptFile w p) = [] \<and>
    pt_tokenUsage (parseTranscriptFile w p) = \<lparr>tu_input = 0, tu_output = 0\<rparr> \<and>
    (transcript_path d = Some p \<and> autoSync c \<noteq> Some False
       \<longrightarrow> requests r = [SessionRec ((session_data (stop_session_id d))
               \<lparr>s_tokenUsage := tokenUsage before, s_messageCount := messageCount before\<rparr>)]
           \<and> exit_code r = 0
           \<and> (net_ok w 0 \<longrightarrow> logged r = None))"
proof -
  let ?ss = "loadSessionState disk"
  let ?sid = "stop_session_id d"
  let ?syn0 = "case syncedMessageUuids (state_or_empty ?ss ?sid) of Some s \<Rightarrow> s | None \<Rightarrow> []"
  have parse: "parseTranscriptFile w p = empty_transcript"
    using missing by (simp add: parseTranscriptFile_def)
  have "transcript_path d = Some p \<and> autoSync c \<noteq> Some False
       \<longrightarrow> requests r = [SessionRec ((session_data ?sid)
               \<lparr>s_tokenUsage := tokenUsage before, s_messageCount := messageCount before\<rparr>)]
           \<and> exit_code r = 0
           \<and> (net_ok w 0 \<longrightarrow> logged r = None)"
  proof
    assume a: "transcript_path d = Some p \<and> autoSync c \<noteq> Some False"
    let ?h = "hook_Stop w disk ?ss d"
    from a r have out: "requests r = requests ?h" "exit_code r = 0" "logged r = thrown ?h"
      by (simp_all add: hook_def hook_switch_def Let_def)
    have turns: "stop_turns w d = []"
      using a parse by (simp add: stop_turns_def empty_transcript_def)
    have usage: "truthy (transcript_path d) \<longrightarrow> stop_usage w d = \<lparr>tu_input = 0, tu_output = 0\<rparr>"
      using a parse by (simp add: stop_usage_def empty_transcript_def)
    then have sb: "stop_before w ?ss d = state_or_empty ?ss ?sid"
      by (auto simp: stop_before_def Let_def)
    have loop: "stop_loop w ?sid (stop_turns w d) (stop_before w ?ss d) ?syn0 []
        = (state_or_empty ?ss ?sid, ?syn0, [], None)"
      using turns sb by simp
    from hook_Stop_unfold [OF loop, of disk]
    have "requests ?h = [SessionRec ((session_data ?sid)
               \<lparr>s_tokenUsage := tokenUsage before, s_messageCount := messageCount before\<rparr>)]
          \<and> (net_ok w 0 \<longrightarrow> thrown ?h = None)"
      by (simp add: stop_finish_fields before)
    with out show "requests r = [SessionRec ((session_data ?sid)
               \<lparr>s_tokenUsage := tokenUsage before, s_messageCount := messageCount before\<rparr>)]
           \<and> exit_code r = 0
           \<and> (net_ok w 0 \<longrightarrow> logged r = None)"
      by simp
  qed
  with parse show ?thesis by (simp add: empty_transcript_def)
qed

text \<open>The theorem in a world without any file, after the session's first prompt.\<close>

theorem stop_missing_transcript_witness:
  "parseTranscriptFile (example_world (\<lambda>p. None) all_ok) ''t.jsonl'' = empty_transcript
   \<and> requests (hook (Some example_config) (example_world (\<lambda>p. None) all_ok) example_disk
         (Some (Stop example_stop)))
     = [SessionRec ((session_data ''S1'')
          \<lparr>s_tokenUsage := Some \<lparr>tu_input = 0, tu_output = 0\<rparr>, s_messageCount := Some 1\<rparr>)]
   \<and> logged (hook (Some example_config) (example_world (\<lambda>p. None) all_ok) example_disk
         (Some (Stop example_stop))) = None
   \<and> exit_code (hook (Some example_config) (example_world (\<lambda>p. None) all_ok) example_disk
         (Some (Stop example_stop))) = 0"
proof -
  let ?w = "example_world (\<lambda>p. None) all_ok"
  have h: "files ?w ''t.jsonl'' = None" "transcript_path example_stop = Some ''t.jsonl''"
    "autoSync example_config \<noteq> Some False" "net_ok ?w 0" "stop_session_id example_stop = ''S1''"
    by (simp_all add: example_defs)
  have b: "tokenUsage (state_or_empty (loadSessionState example_disk) ''S1'')
      = Some \<lparr>tu_input = 0, tu_output = 0\<rparr>"
    "messageCount (state_or_empty (loadSessionState example_disk) ''S1'') = Some 1"
    by (simp_all add: example_defs hook_defs)
  from stop_missing_transcript [where w = ?w and p = "''t.jsonl''" and c = example_config
      and disk = example_disk and d = example_stop, OF h(1) refl refl] h b
  show ?thesis by simp
qed




section \<open>The message count across invocations\<close>

lemma count_of_File: "count_of (File ss) sid = or_zero (messageCount (state_or_empty ss sid))"
  by (cases "ss sid") (simp_all add: count_of_def state_or_empty_def load_File normalised_fields)

lemma state_or_empty_loaded:
  "state_or_empty (loadSessionState (File (loadSessionState disk))) sid
     = normalised (state_or_empty (loadSessionState disk) sid)"
  by (cases "loadSessionState disk sid")
     (simp_all add: state_or_empty_def load_File normalised_def empty_state_def)


















section \<open>Replaying Stop events\<close>

















section \<open>The SessionEnd case\<close>






section \<open>Failures of the collector\<close>














end
